theory Spec2Isabelle
  imports Main
begin

section \<open>Data model\<close>

text \<open>
  The poll actions of \<^verbatim>\<open>src/app/lib/actions/auth-actions.ts\<close> run against two tables of a
  hosted relational store, \<^verbatim>\<open>polls\<close> and \<^verbatim>\<open>votes\<close>, and an identity provider. A table is
  the list of its rows in insertion order. Only the columns the actions read or write
  are kept: \<^verbatim>\<open>votes.id\<close>, \<^verbatim>\<open>votes.created_at\<close> and \<^verbatim>\<open>polls.updated_at\<close> are never looked at.
  A JavaScript string is the list of its code units, restricted to the range of \<^typ>\<open>char\<close>.
\<close>

type_synonym uuid = string

record poll =
  id_poll :: uuid
  title :: string
  options :: "string list"
  created_by :: uuid
  is_active :: bool
  created_at :: nat

record vote =
  poll_id :: uuid
  user_id :: "uuid option"
  option_index :: int

record db =
  polls :: "poll list"
  votes :: "vote list"

text \<open>
  The store calls an action can make, and the errors a call can report: a failure of
  the store itself (with its message), \<^verbatim>\<open>.single()\<close> not finding exactly one row, and
  an insert into \<^verbatim>\<open>polls\<close> violating the primary key.
\<close>

datatype store_call = SelectPolls | InsertPolls | UpdatePolls | SelectVotes | InsertVotes

datatype store_error = StoreFault string | NoSingleRow | UniqueViolation

text \<open>
  What the collaborators answer during one request: \<^verbatim>\<open>supabase.auth.getUser()\<close> gives
  \<open>user\<close> (the id of \<^verbatim>\<open>data.user\<close>, or none) and \<open>userError\<close>; \<open>fault c\<close> is the
  failure, if any, the store reports for call \<open>c\<close>; \<open>gen_random_uuid\<close> and \<open>now\<close> are the
  column defaults of a newly inserted poll.
\<close>

record env =
  user :: "uuid option"
  userError :: "string option"
  fault :: "store_call \<Rightarrow> string option"
  gen_random_uuid :: uuid
  now :: nat

text \<open>The \<^verbatim>\<open>{ error: string | null }\<close> results, one constructor for each message.\<close>

datatype error =
    QuestionRequired
  | QuestionTooLong
  | TooFewOptions
  | TooManyOptions
  | OptionEmpty nat
  | OptionTooLong nat
  | DuplicateOptions
  | AuthMessage string
  | StoreMessage store_error
  | MustBeLoggedInCreate
  | MustBeLoggedInUpdate
  | NotAuthenticated
  | PollNotFound
  | InvalidOption
  | AlreadyVoted
  | AuthenticationRequired
  | UnauthorizedDelete
  | UnauthorizedUpdate

section \<open>The store\<close>

definition single :: "string option \<Rightarrow> 'a list \<Rightarrow> store_error + 'a" where
  "single flt rows =
     (case flt of
        Some m \<Rightarrow> Inl (StoreFault m)
      | None \<Rightarrow> (case rows of [r] \<Rightarrow> Inr r | _ \<Rightarrow> Inl NoSingleRow))"

definition select_rows :: "string option \<Rightarrow> 'a list \<Rightarrow> store_error + 'a list" where
  "select_rows flt rows = (case flt of Some m \<Rightarrow> Inl (StoreFault m) | None \<Rightarrow> Inr rows)"

text \<open>
  An insert into \<^verbatim>\<open>polls\<close> with the columns the action gives; \<^verbatim>\<open>id\<close> and \<^verbatim>\<open>created_at\<close>
  take their defaults, and \<^verbatim>\<open>id\<close> is the primary key.
\<close>

definition insert_poll :: "env \<Rightarrow> uuid \<Rightarrow> string \<Rightarrow> string list \<Rightarrow> bool \<Rightarrow> db
    \<Rightarrow> store_error option \<times> db" where
  "insert_poll e owner ttl opts active d =
     (case fault e InsertPolls of
        Some m \<Rightarrow> (Some (StoreFault m), d)
      | None \<Rightarrow>
          if gen_random_uuid e \<in> set (map id_poll (polls d)) then (Some UniqueViolation, d)
          else (None, d\<lparr>polls := polls d @
                  [\<lparr>id_poll = gen_random_uuid e, title = ttl, options = opts,
                    created_by = owner, is_active = active, created_at = now e\<rparr>]\<rparr>))"

text \<open>An update of every row of \<^verbatim>\<open>polls\<close> that matches the \<^verbatim>\<open>.eq\<close> filters.\<close>

definition update_polls :: "env \<Rightarrow> (poll \<Rightarrow> bool) \<Rightarrow> (poll \<Rightarrow> poll) \<Rightarrow> db
    \<Rightarrow> store_error option \<times> db" where
  "update_polls e matches change d =
     (case fault e UpdatePolls of
        Some m \<Rightarrow> (Some (StoreFault m), d)
      | None \<Rightarrow> (None, d\<lparr>polls := map (\<lambda>p. if matches p then change p else p) (polls d)\<rparr>))"

definition insert_vote :: "env \<Rightarrow> vote \<Rightarrow> db \<Rightarrow> store_error option \<times> db" where
  "insert_vote e v d =
     (case fault e InsertVotes of
        Some m \<Rightarrow> (Some (StoreFault m), d)
      | None \<Rightarrow> (None, d\<lparr>votes := votes d @ [v]\<rparr>))"

text \<open>
  \<^verbatim>\<open>.order("created_at", { ascending: false })\<close>; the store leaves the order of rows
  with equal keys open, the model keeps one.
\<close>

definition order_desc :: "poll list \<Rightarrow> poll list" where
  "order_desc rows = rev (sort_key created_at rows)"

section \<open>Strings and form data\<close>

text \<open>
  \<^verbatim>\<open>String.prototype.trim\<close> strips white space and line terminators from both ends:
  in the range of \<^typ>\<open>char\<close> these are TAB, LF, VT, FF, CR, SPACE and NBSP.
\<close>

definition is_ws :: "char \<Rightarrow> bool" where
  "is_ws c = (c \<in> set [CHR 0x09, CHR 0x0A, CHR 0x0B, CHR 0x0C, CHR 0x0D, CHR 0x20, CHR 0xA0])"

definition trim :: "string \<Rightarrow> string" where
  "trim s = rev (dropWhile is_ws (rev (dropWhile is_ws s)))"

text \<open>\<^verbatim>\<open>[...new Set(xs)]\<close>: the elements of \<open>xs\<close> in the order they are first seen.\<close>

fun Set_add_all :: "'a list \<Rightarrow> 'a list \<Rightarrow> 'a list" where
  "Set_add_all seen [] = seen"
| "Set_add_all seen (x # xs) = Set_add_all (if x \<in> set seen then seen else seen @ [x]) xs"

definition new_Set :: "'a list \<Rightarrow> 'a list" where
  "new_Set xs = Set_add_all [] xs"

text \<open>
  The form: \<^verbatim>\<open>formData.get("question")\<close> (null when the field is missing) and
  \<^verbatim>\<open>formData.getAll("options")\<close>.
\<close>

record formData =
  get_question :: "string option"
  getAll_options :: "string list"

text \<open>A form with a question and options.\<close>

definition form_of :: "string \<Rightarrow> string list \<Rightarrow> formData" where
  "form_of ttl opts = \<lparr>get_question = Some ttl, getAll_options = opts\<rparr>"

section \<open>Input validation\<close>

text \<open>The loop \<^verbatim>\<open>for (let i = 0; i < options.length; i++)\<close>, from index \<open>i\<close> on.\<close>

fun validate_each :: "nat \<Rightarrow> string list \<Rightarrow> error option" where
  "validate_each i [] = None"
| "validate_each i (opt # rest) =
     (let option = trim opt
      in if option = [] then Some (OptionEmpty (i + 1))
         else if length option > 200 then Some (OptionTooLong (i + 1))
         else validate_each (i + 1) rest)"

text \<open>
  The block from \<^verbatim>\<open>const question = ...\<close> to the duplicate check, the same text in
  \<^verbatim>\<open>createPoll\<close> and \<^verbatim>\<open>updatePoll\<close> (both copies of each). It gives the error returned,
  or \<^verbatim>\<open>question\<close> and \<^verbatim>\<open>uniqueOptions\<close>. \<^verbatim>\<open>.filter(Boolean)\<close> drops the empty strings.
\<close>

definition validate :: "formData \<Rightarrow> error + string \<times> string list" where
  "validate fd =
     (let options = filter (\<lambda>s. s \<noteq> []) (getAll_options fd)
      in case get_question fd of
           None \<Rightarrow> Inl QuestionRequired
         | Some question \<Rightarrow>
             if question = [] \<or> length (trim question) = 0 then Inl QuestionRequired
             else if length question > 500 then Inl QuestionTooLong
             else if length options < 2 then Inl TooFewOptions
             else if length options > 10 then Inl TooManyOptions
             else (case validate_each 0 options of
                     Some err \<Rightarrow> Inl err
                   | None \<Rightarrow>
                       let uniqueOptions = new_Set (map trim options)
                       in if length uniqueOptions \<noteq> length options then Inl DuplicateOptions
                          else Inr (question, uniqueOptions)))"

section \<open>Poll actions\<close>

text \<open>
  An action that writes gives \<^verbatim>\<open>error\<close> (none for null) and the store after it.
  \<^verbatim>\<open>revalidatePath\<close>, which only tells the pages to reload, is left out. \<^verbatim>\<open>optionIndex\<close>
  is an integer, as the column \<^verbatim>\<open>option_index\<close> is.
\<close>

definition createPoll :: "env \<Rightarrow> db \<Rightarrow> formData \<Rightarrow> error option \<times> db" where
  "createPoll e d fd =
     (case validate fd of
        Inl err \<Rightarrow> (Some err, d)
      | Inr (question, uniqueOptions) \<Rightarrow>
          (case userError e of
             Some m \<Rightarrow> (Some (AuthMessage m), d)
           | None \<Rightarrow>
               (case user e of
                  None \<Rightarrow> (Some MustBeLoggedInCreate, d)
                | Some uid \<Rightarrow>
                    (case insert_poll e uid (trim question) uniqueOptions True d of
                       (Some err, d') \<Rightarrow> (Some (StoreMessage err), d')
                     | (None, d') \<Rightarrow> (None, d')))))"

text \<open>The result is \<^verbatim>\<open>(polls, error)\<close>.\<close>

definition getUserPolls :: "env \<Rightarrow> db \<Rightarrow> poll list \<times> error option" where
  "getUserPolls e d =
     (case user e of
        None \<Rightarrow> ([], Some NotAuthenticated)
      | Some uid \<Rightarrow>
          (case select_rows (fault e SelectPolls)
                  (order_desc (filter (\<lambda>p. created_by p = uid \<and> is_active p = True) (polls d))) of
             Inl err \<Rightarrow> ([], Some (StoreMessage err))
           | Inr rows \<Rightarrow> (rows, None)))"

text \<open>The result is \<^verbatim>\<open>(poll, error)\<close>.\<close>

definition getPollById :: "env \<Rightarrow> db \<Rightarrow> uuid \<Rightarrow> poll option \<times> error option" where
  "getPollById e d ident =
     (case single (fault e SelectPolls)
             (filter (\<lambda>p. id_poll p = ident \<and> is_active p = True) (polls d)) of
        Inl err \<Rightarrow> (None, Some (StoreMessage err))
      | Inr row \<Rightarrow> (Some row, None))"

definition submitVote :: "env \<Rightarrow> db \<Rightarrow> uuid \<Rightarrow> int \<Rightarrow> error option \<times> db" where
  "submitVote e d pollId optionIndex =
     (case single (fault e SelectPolls) (filter (\<lambda>p. id_poll p = pollId) (polls d)) of
        Inl pollError \<Rightarrow> (Some PollNotFound, d)
      | Inr row \<Rightarrow>
          if optionIndex < 0 \<or> optionIndex \<ge> int (length (options row))
          then (Some InvalidOption, d)
          else if (case user e of
                     None \<Rightarrow> False
                   | Some uid \<Rightarrow>
                       (case single (fault e SelectVotes)
                               (filter (\<lambda>v. poll_id v = pollId \<and> user_id v = Some uid) (votes d)) of
                          Inl err \<Rightarrow> False
                        | Inr existingVote \<Rightarrow> True))
          then (Some AlreadyVoted, d)
          else (case insert_vote e
                       \<lparr>poll_id = pollId, user_id = user e, option_index = optionIndex\<rparr> d of
                  (Some err, d') \<Rightarrow> (Some (StoreMessage err), d')
                | (None, d') \<Rightarrow> (None, d')))"

definition deletePoll :: "env \<Rightarrow> db \<Rightarrow> uuid \<Rightarrow> error option \<times> db" where
  "deletePoll e d ident =
     (case (userError e, user e) of
        (Some m, _) \<Rightarrow> (Some AuthenticationRequired, d)
      | (None, None) \<Rightarrow> (Some AuthenticationRequired, d)
      | (None, Some uid) \<Rightarrow>
          (case single (fault e SelectPolls)
                  (filter (\<lambda>p. id_poll p = ident \<and> is_active p = True) (polls d)) of
             Inl pollError \<Rightarrow> (Some PollNotFound, d)
           | Inr row \<Rightarrow>
               if created_by row \<noteq> uid then (Some UnauthorizedDelete, d)
               else (case update_polls e (\<lambda>p. id_poll p = ident \<and> created_by p = uid)
                            (\<lambda>p. p\<lparr>is_active := False\<rparr>) d of
                       (Some err, d') \<Rightarrow> (Some (StoreMessage err), d')
                     | (None, d') \<Rightarrow> (None, d'))))"

text \<open>
  \<^verbatim>\<open>updatePoll\<close>, the documented copy (lines 491-567): the error of the store update is
  bound and never read, and \<^verbatim>\<open>{ error: null }\<close> is returned.
\<close>

definition updatePoll :: "env \<Rightarrow> db \<Rightarrow> uuid \<Rightarrow> formData \<Rightarrow> error option \<times> db" where
  "updatePoll e d pollId fd =
     (case validate fd of
        Inl err \<Rightarrow> (Some err, d)
      | Inr (question, uniqueOptions) \<Rightarrow>
          (case userError e of
             Some m \<Rightarrow> (Some (AuthMessage m), d)
           | None \<Rightarrow>
               (case user e of
                  None \<Rightarrow> (Some MustBeLoggedInUpdate, d)
                | Some uid \<Rightarrow>
                    (case single (fault e SelectPolls)
                            (filter (\<lambda>p. id_poll p = pollId \<and> is_active p = True) (polls d)) of
                       Inl pollError \<Rightarrow> (Some PollNotFound, d)
                     | Inr row \<Rightarrow>
                         if created_by row \<noteq> uid then (Some UnauthorizedUpdate, d)
                         else (case update_polls e
                                      (\<lambda>p. id_poll p = pollId \<and> created_by p = uid)
                                      (\<lambda>p. p\<lparr>title := trim question, options := uniqueOptions\<rparr>) d of
                                 (error, d') \<Rightarrow> (None, d'))))))"

text \<open>
  \<^verbatim>\<open>updatePoll\<close>, the second copy (lines 813-893): the same but for the end, where the
  message of a failed update is returned.
\<close>

definition updatePoll_copy2 :: "env \<Rightarrow> db \<Rightarrow> uuid \<Rightarrow> formData \<Rightarrow> error option \<times> db" where
  "updatePoll_copy2 e d pollId fd =
     (case validate fd of
        Inl err \<Rightarrow> (Some err, d)
      | Inr (question, uniqueOptions) \<Rightarrow>
          (case userError e of
             Some m \<Rightarrow> (Some (AuthMessage m), d)
           | None \<Rightarrow>
               (case user e of
                  None \<Rightarrow> (Some MustBeLoggedInUpdate, d)
                | Some uid \<Rightarrow>
                    (case single (fault e SelectPolls)
                            (filter (\<lambda>p. id_poll p = pollId \<and> is_active p = True) (polls d)) of
                       Inl pollError \<Rightarrow> (Some PollNotFound, d)
                     | Inr row \<Rightarrow>
                         if created_by row \<noteq> uid then (Some UnauthorizedUpdate, d)
                         else (case update_polls e
                                      (\<lambda>p. id_poll p = pollId \<and> created_by p = uid)
                                      (\<lambda>p. p\<lparr>title := trim question, options := uniqueOptions\<rparr>) d of
                                 (Some err, d') \<Rightarrow> (Some (StoreMessage err), d')
                               | (None, d') \<Rightarrow> (None, d'))))))"

text \<open>
  The error kinds of the specification, for the messages above. A message passed
  through from the store is a store failure, except that of \<^verbatim>\<open>.single()\<close> finding no
  single row, which is how \<^verbatim>\<open>getPollById\<close> reports a missing poll.
\<close>

datatype error_kind =
  Unauthenticated | Unauthorized | NotFound | InvalidInput | DuplicateVote | StoreFailure

fun kind :: "error \<Rightarrow> error_kind" where
  "kind QuestionRequired = InvalidInput"
| "kind QuestionTooLong = InvalidInput"
| "kind TooFewOptions = InvalidInput"
| "kind TooManyOptions = InvalidInput"
| "kind (OptionEmpty i) = InvalidInput"
| "kind (OptionTooLong i) = InvalidInput"
| "kind DuplicateOptions = InvalidInput"
| "kind InvalidOption = InvalidInput"
| "kind (AuthMessage m) = Unauthenticated"
| "kind MustBeLoggedInCreate = Unauthenticated"
| "kind MustBeLoggedInUpdate = Unauthenticated"
| "kind NotAuthenticated = Unauthenticated"
| "kind AuthenticationRequired = Unauthenticated"
| "kind PollNotFound = NotFound"
| "kind (StoreMessage NoSingleRow) = NotFound"
| "kind (StoreMessage (StoreFault m)) = StoreFailure"
| "kind (StoreMessage UniqueViolation) = StoreFailure"
| "kind AlreadyVoted = DuplicateVote"
| "kind UnauthorizedDelete = Unauthorized"
| "kind UnauthorizedUpdate = Unauthorized"

section \<open>Input validity as the specification words it\<close>

text \<open>
  The conditions under which \<^verbatim>\<open>create_poll\<close> and \<^verbatim>\<open>update_poll\<close> fail with InvalidInput,
  in the words of the specification (section 4.1), for a title and a sequence of
  options: the title is empty, whitespace-only or longer than 500 characters (an absent
  title counts as empty); there are fewer than 2 or more than 10 options; some option is
  empty after trimming or longer than 200 characters; the trimmed options have a
  duplicate. This is the reference the code's validation is compared with.
\<close>

definition spec_invalid_input :: "string option \<Rightarrow> string list \<Rightarrow> bool" where
  "spec_invalid_input ttl opts \<longleftrightarrow>
     (case ttl of
        None \<Rightarrow> True
      | Some t \<Rightarrow> t = [] \<or> (\<forall>c\<in>set t. is_ws c) \<or> length t > 500)
   \<or> length opts < 2 \<or> length opts > 10
   \<or> (\<exists>x\<in>set opts. trim x = [] \<or> length (trim x) > 200)
   \<or> \<not> distinct (map trim opts)"

text \<open>
  The invariant of the specification's data model (section 3): at most one vote for
  each pair of a poll and a user, votes without a user not counted.
\<close>

definition one_vote_per_user :: "db \<Rightarrow> bool" where
  "one_vote_per_user d \<longleftrightarrow>
     distinct (map (\<lambda>v. (poll_id v, user_id v)) (filter (\<lambda>v. user_id v \<noteq> None) (votes d)))"

section \<open>Tallying votes\<close>

text \<open>
  The callback of \<^verbatim>\<open>votes.reduce(..., [])\<close> in \<^verbatim>\<open>getVoteCounts\<close>: the count at \<open>index\<close> is
  incremented only when \<open>index\<close> is below the current length of \<open>counts\<close>. There
  \<^verbatim>\<open>counts[index] || 0\<close> is \<^verbatim>\<open>counts[index]\<close>, a number.
\<close>

definition count_vote :: "int list \<Rightarrow> vote \<Rightarrow> int list" where
  "count_vote counts vote =
     (let index = option_index vote
      in if index \<ge> 0 \<and> index < int (length counts)
         then counts[nat index := counts ! nat index + 1]
         else counts)"

text \<open>The result is \<^verbatim>\<open>(voteCounts, totalVotes, error)\<close>.\<close>

definition getVoteCounts :: "env \<Rightarrow> db \<Rightarrow> uuid \<Rightarrow> int list \<times> nat \<times> error option" where
  "getVoteCounts e d pollId =
     (case select_rows (fault e SelectVotes) (filter (\<lambda>v. poll_id v = pollId) (votes d)) of
        Inl err \<Rightarrow> ([], 0, Some (StoreMessage err))
      | Inr vs \<Rightarrow> (foldl count_vote [] vs, length vs, None))"

section \<open>Example data\<close>

definition no_fault :: "store_call \<Rightarrow> string option" where
  "no_fault c = None"

definition anonymous :: env where
  "anonymous = \<lparr>user = None, userError = None, fault = no_fault,
                 gen_random_uuid = ''p9'', now = 7\<rparr>"

definition poll1 :: poll where
  "poll1 = \<lparr>id_poll = ''p1'', title = ''Pick one'', options = [''A'', ''B''],
             created_by = ''u1'', is_active = True, created_at = 1\<rparr>"

definition db001 :: db where
  "db001 = \<lparr>polls = [poll1],
             votes = [\<lparr>poll_id = ''p1'', user_id = Some ''u1'', option_index = 0\<rparr>,
                      \<lparr>poll_id = ''p1'', user_id = None, option_index = 0\<rparr>,
                      \<lparr>poll_id = ''p1'', user_id = Some ''u2'', option_index = 1\<rparr>]\<rparr>"

definition alice :: env where
  "alice = \<lparr>user = Some ''u1'', userError = None, fault = no_fault,
             gen_random_uuid = ''p9'', now = 7\<rparr>"

definition bob :: env where
  "bob = \<lparr>user = Some ''u2'', userError = None, fault = no_fault,
           gen_random_uuid = ''p9'', now = 7\<rparr>"

definition form_AB :: formData where
  "form_AB = \<lparr>get_question = Some ''Pick one'', getAll_options = [''A'', ''B'']\<rparr>"

definition form_blank :: formData where
  "form_blank = \<lparr>get_question = Some '''', getAll_options = []\<rparr>"

definition carol :: env where
  "carol = \<lparr>user = Some ''u3'', userError = None, fault = no_fault,
             gen_random_uuid = ''p9'', now = 7\<rparr>"

definition update_fails :: "store_call \<Rightarrow> string option" where
  "update_fails c = (if c = UpdatePolls then Some ''connection lost'' else None)"

definition alice_offline :: env where
  "alice_offline = \<lparr>user = Some ''u1'', userError = None, fault = update_fails,
             gen_random_uuid = ''p9'', now = 7\<rparr>"

definition poll1_deleted :: poll where
  "poll1_deleted = \<lparr>id_poll = ''p1'', title = ''Pick one'', options = [''A'', ''B''],
             created_by = ''u1'', is_active = False, created_at = 1\<rparr>"

definition db_deleted :: db where
  "db_deleted = \<lparr>polls = [poll1_deleted],
             votes = [\<lparr>poll_id = ''p1'', user_id = Some ''u1'', option_index = 0\<rparr>]\<rparr>"

definition db_twice :: db where
  "db_twice = \<lparr>polls = [poll1],
             votes = [\<lparr>poll_id = ''p1'', user_id = Some ''u1'', option_index = 0\<rparr>,
                      \<lparr>poll_id = ''p1'', user_id = Some ''u1'', option_index = 1\<rparr>]\<rparr>"

definition ten_options :: "string list" where
  "ten_options = [''A'', ''B'', ''C'', ''D'', ''E'', ''F'', ''G'', ''H'', ''I'', ''J'']"

section \<open>Evaluation and validation lemmas\<close>

lemmas eval_defs = validate_def Let_def trim_def is_ws_def new_Set_def single_def select_rows_def
  insert_poll_def insert_vote_def update_polls_def no_fault_def

lemma validate_each_kind: "validate_each i os = Some err \<Longrightarrow> kind err = InvalidInput"
  by (induction i os rule: validate_each.induct) (auto simp: Let_def split: if_splits)

lemma validate_each_None:
  "validate_each i os = None \<longleftrightarrow> (\<forall>x\<in>set os. trim x \<noteq> [] \<and> length (trim x) \<le> 200)"
  by (induction i os rule: validate_each.induct) (auto simp: Let_def)

lemma length_Set_add_all: "length (Set_add_all seen xs) \<le> length seen + length xs"
proof (induction xs arbitrary: seen)
  case Nil
  show ?case by simp
next
  case (Cons x xs)
  have "length (Set_add_all (if x \<in> set seen then seen else seen @ [x]) xs)
      \<le> length (if x \<in> set seen then seen else seen @ [x]) + length xs"
    by (rule Cons.IH)
  then show ?case by (simp split: if_splits)
qed

lemma Set_add_all_distinct: "distinct (seen @ xs) \<Longrightarrow> Set_add_all seen xs = seen @ xs"
  by (induction xs arbitrary: seen) auto

lemma Set_add_all_shorter:
  "\<not> distinct (seen @ xs) \<Longrightarrow> distinct seen
   \<Longrightarrow> length (Set_add_all seen xs) < length seen + length xs"
proof (induction xs arbitrary: seen)
  case Nil
  then show ?case by simp
next
  case (Cons x xs)
  show ?case
  proof (cases "x \<in> set seen")
    case True
    then show ?thesis using length_Set_add_all [of seen xs] by simp
  next
    case False
    with Cons.prems have "\<not> distinct ((seen @ [x]) @ xs)" and "distinct (seen @ [x])" by auto
    then have "length (Set_add_all (seen @ [x]) xs) < length (seen @ [x]) + length xs"
      by (rule Cons.IH)
    with False show ?thesis by simp
  qed
qed

lemma new_Set_distinct: "distinct xs \<Longrightarrow> new_Set xs = xs"
  by (simp add: new_Set_def Set_add_all_distinct)

lemma length_new_Set: "length (new_Set xs) = length xs \<longleftrightarrow> distinct xs"
proof
  assume len: "length (new_Set xs) = length xs"
  show "distinct xs"
  proof (rule ccontr)
    assume "\<not> distinct xs"
    then have "length (Set_add_all [] xs) < length ([] :: 'a list) + length xs"
      by (intro Set_add_all_shorter) simp_all
    with len show False by (simp add: new_Set_def)
  qed
next
  assume "distinct xs"
  then show "length (new_Set xs) = length xs" by (simp add: new_Set_distinct)
qed

lemma length_new_Set_map:
  "length (new_Set (map f xs)) = length xs \<longleftrightarrow> distinct (map f xs)"
  using length_new_Set [of "map f xs"] by simp

lemma trim_empty: "trim [] = []"
  by (simp add: trim_def)

lemma dropWhile_all: "(\<forall>c\<in>set (dropWhile P s). P c) \<longleftrightarrow> (\<forall>c\<in>set s. P c)"
  by (induction s) auto

lemma trim_Nil: "trim s = [] \<longleftrightarrow> (\<forall>c\<in>set s. is_ws c)"
  by (simp add: trim_def dropWhile_all)

lemma validate_kind: "validate fd = Inl err \<Longrightarrow> kind err = InvalidInput"
  by (auto simp: validate_def Let_def validate_each_kind split: option.splits if_splits)

lemma validate_Inr:
  "validate fd = Inr (q, os) \<longleftrightarrow>
     get_question fd = Some q \<and> trim q \<noteq> [] \<and> length q \<le> 500
   \<and> 2 \<le> length (filter (\<lambda>s. s \<noteq> []) (getAll_options fd))
   \<and> length (filter (\<lambda>s. s \<noteq> []) (getAll_options fd)) \<le> 10
   \<and> (\<forall>x\<in>set (filter (\<lambda>s. s \<noteq> []) (getAll_options fd)).
          trim x \<noteq> [] \<and> length (trim x) \<le> 200)
   \<and> distinct (map trim (filter (\<lambda>s. s \<noteq> []) (getAll_options fd)))
   \<and> os = map trim (filter (\<lambda>s. s \<noteq> []) (getAll_options fd))"
  using validate_each_None [of 0 "filter (\<lambda>s. s \<noteq> []) (getAll_options fd)"]
  by (auto simp: validate_def Let_def length_new_Set_map new_Set_distinct
      trim_empty split: option.splits)

lemma validate_form_AB: "validate form_AB = Inr (''Pick one'', [''A'', ''B''])"
  by (simp add: form_AB_def eval_defs)

lemma validate_form_blank: "validate form_blank = Inl QuestionRequired"
  by (simp add: form_blank_def eval_defs)

lemma filter_poll1: "filter (\<lambda>p. id_poll p = ''p1'') (polls db001) = [poll1]"
  by (simp add: db001_def poll1_def)

lemma filter_poll1_active:
  "filter (\<lambda>p. id_poll p = ''p1'' \<and> is_active p) (polls db001) = [poll1]"
  by (simp add: db001_def poll1_def)

section \<open>Vote counts\<close>

lemma count_vote_Nil: "count_vote [] v = []"
  by (simp add: count_vote_def Let_def)

lemma foldl_count_vote_Nil: "foldl count_vote [] vs = []"
  by (induction vs) (simp_all add: count_vote_Nil)

lemma getVoteCounts_no_fault:
  "fault e SelectVotes = None \<Longrightarrow>
   getVoteCounts e d pollId = ([], length (filter (\<lambda>v. poll_id v = pollId) (votes d)), None)"
  by (simp add: getVoteCounts_def select_rows_def foldl_count_vote_Nil)

text \<open>
  Claim C1. \<^verbatim>\<open>get_vote_counts\<close> is to return, at position \<open>i\<close>, the number of stored votes
  with \<^verbatim>\<open>option_index = i\<close>, and the number of rows read as the total: counts \<open>[2, 1]\<close> and
  total \<open>3\<close> for votes at indices \<open>[0, 0, 1]\<close>. On that poll the code returns the total
  \<open>3\<close> with an empty sequence of counts: the accumulator starts empty and no index is
  ever below its length.
\<close>

theorem C1_getVoteCounts_loses_counts:
  "getVoteCounts anonymous db001 ''p1'' = ([], 3, None)"
  by (simp add: getVoteCounts_def select_rows_def count_vote_def anonymous_def no_fault_def
      db001_def)

section \<open>Ownership\<close>

text \<open>
  Claim C2, as amended. For an active poll and a requester who is signed in and is not
  its creator, \<^verbatim>\<open>deletePoll\<close> fails with the Unauthorized message and leaves the store as
  it is. \<^verbatim>\<open>updatePoll\<close> (either copy) validates the form before it looks at the poll: it
  fails with the Unauthorized message when the form passes validation, and with the
  validation error otherwise; the store is unchanged in both cases.
\<close>

theorem C2_non_owner_unauthorized:
  assumes "user e = Some uid" and "userError e = None" and "fault e SelectPolls = None"
    and "filter (\<lambda>p. id_poll p = pid \<and> is_active p) (polls d) = [row]"
    and "created_by row \<noteq> uid"
  shows "deletePoll e d pid = (Some UnauthorizedDelete, d)
       \<and> updatePoll e d pid fd =
           (case validate fd of Inl err \<Rightarrow> (Some err, d) | Inr ok \<Rightarrow> (Some UnauthorizedUpdate, d))
       \<and> updatePoll_copy2 e d pid fd =
           (case validate fd of Inl err \<Rightarrow> (Some err, d) | Inr ok \<Rightarrow> (Some UnauthorizedUpdate, d))"
  using assms
  by (simp add: deletePoll_def updatePoll_def updatePoll_copy2_def single_def
      split: sum.splits prod.splits)

theorem C2_witness:
  "created_by poll1 \<noteq> ''u2''
   \<and> deletePoll bob db001 ''p1'' = (Some UnauthorizedDelete, db001)
   \<and> updatePoll bob db001 ''p1'' form_AB = (Some UnauthorizedUpdate, db001)
   \<and> updatePoll bob db001 ''p1'' form_blank = (Some QuestionRequired, db001)"
proof -
  have h1: "user bob = Some ''u2''" and h2: "userError bob = None"
    and h3: "fault bob SelectPolls = None"
    by (simp_all add: bob_def no_fault_def)
  have h4: "filter (\<lambda>p. id_poll p = ''p1'' \<and> is_active p) (polls db001) = [poll1]"
    by (simp add: db001_def poll1_def)
  have h5: "created_by poll1 \<noteq> ''u2''" by (simp add: poll1_def)
  from C2_non_owner_unauthorized [OF h1 h2 h3 h4 h5, of form_AB]
    C2_non_owner_unauthorized [OF h1 h2 h3 h4 h5, of form_blank] h5
  show ?thesis by (simp add: validate_form_AB validate_form_blank)
qed

text \<open>
  The claim as stated fails: user \<open>u2\<close> updating the active poll \<open>p1\<close> of user \<open>u1\<close>
  with an empty question gets the validation error, not Unauthorized.
\<close>

theorem C2_counterexample:
  "user bob = Some ''u2'' \<and> poll1 \<in> set (polls db001) \<and> id_poll poll1 = ''p1''
   \<and> is_active poll1 \<and> created_by poll1 \<noteq> ''u2''
   \<and> updatePoll bob db001 ''p1'' form_blank = (Some QuestionRequired, db001)
   \<and> kind QuestionRequired = InvalidInput"
  by (simp add: updatePoll_def form_blank_def bob_def db001_def poll1_def
      eval_defs)

section \<open>Listing the polls of a user\<close>

text \<open>
  Claim C3, as amended. When no user is signed in, \<^verbatim>\<open>getUserPolls\<close> returns the empty
  sequence of polls together with the error \<^verbatim>\<open>"Not authenticated"\<close>.
\<close>

theorem C3_getUserPolls_absent:
  "user e = None \<Longrightarrow> getUserPolls e d = ([], Some NotAuthenticated)"
  by (simp add: getUserPolls_def)

theorem C3_witness:
  "user anonymous = None \<and> getUserPolls anonymous db001 = ([], Some NotAuthenticated)"
proof -
  have h: "user anonymous = None" by (simp add: anonymous_def)
  from C3_getUserPolls_absent [OF h, of db001] h show ?thesis by simp
qed

text \<open>The claim as stated fails: the result carries an error.\<close>

theorem C3_counterexample:
  "user anonymous = None \<and> snd (getUserPolls anonymous db001) = Some NotAuthenticated
   \<and> kind NotAuthenticated = Unauthenticated"
  by (simp add: getUserPolls_def anonymous_def)

section \<open>Voting\<close>

lemma submitVote_found:
  assumes "fault e SelectPolls = None"
    and "filter (\<lambda>p. id_poll p = pid) (polls d) = [row]"
  shows "submitVote e d pid i =
     (if i < 0 \<or> int (length (options row)) \<le> i then (Some InvalidOption, d)
      else if (case user e of
                 None \<Rightarrow> False
               | Some uid \<Rightarrow>
                   (case single (fault e SelectVotes)
                           (filter (\<lambda>v. poll_id v = pid \<and> user_id v = Some uid) (votes d)) of
                      Inl err \<Rightarrow> False
                    | Inr existingVote \<Rightarrow> True))
      then (Some AlreadyVoted, d)
      else (case fault e InsertVotes of
              Some m \<Rightarrow> (Some (StoreMessage (StoreFault m)), d)
            | None \<Rightarrow> (None, d\<lparr>votes := votes d @
                        [\<lparr>poll_id = pid, user_id = user e, option_index = i\<rparr>]\<rparr>)))"
  using assms by (simp add: submitVote_def single_def insert_vote_def split: option.splits)

lemma submitVote_first:
  assumes "fault e SelectPolls = None" and "fault e SelectVotes = None"
    and "fault e InsertVotes = None" and "user e = Some uid"
    and "filter (\<lambda>p. id_poll p = pid) (polls d) = [row]"
    and "0 \<le> i" and "i < int (length (options row))"
    and "filter (\<lambda>v. poll_id v = pid \<and> user_id v = Some uid) (votes d) = []"
  shows "submitVote e d pid i =
           (None, d\<lparr>votes := votes d @ [\<lparr>poll_id = pid, user_id = Some uid, option_index = i\<rparr>]\<rparr>)"
  using assms(3,4,6,7,8) by (simp add: submitVote_found [OF assms(1,5)] single_def assms(2))

lemma submitVote_again:
  assumes "fault e SelectPolls = None" and "fault e SelectVotes = None"
    and "user e = Some uid"
    and "filter (\<lambda>p. id_poll p = pid) (polls d) = [row]"
    and "0 \<le> j" and "j < int (length (options row))"
    and "filter (\<lambda>v. poll_id v = pid \<and> user_id v = Some uid) (votes d) = [v]"
  shows "submitVote e d pid j = (Some AlreadyVoted, d)"
  using assms(3,5,6,7) by (simp add: submitVote_found [OF assms(1,4)] single_def assms(2))

lemma submitVote_anonymous:
  assumes "fault a SelectPolls = None" and "fault a InsertVotes = None" and "user a = None"
    and "filter (\<lambda>p. id_poll p = pid) (polls d) = [row]"
    and "0 \<le> i" and "i < int (length (options row))"
  shows "submitVote a d pid i =
           (None, d\<lparr>votes := votes d @ [\<lparr>poll_id = pid, user_id = None, option_index = i\<rparr>]\<rparr>)"
  using assms(2,3,5,6) by (simp add: submitVote_found [OF assms(1,4)])

text \<open>
  Claim C9. For a poll that exists, with \<open>n\<close> options, \<^verbatim>\<open>submitVote\<close> fails with an
  InvalidInput error exactly when the index is negative or at least \<open>n\<close>, and then the
  store is unchanged: no vote row is inserted.
\<close>

theorem C9_option_index_range:
  assumes "fault e SelectPolls = None"
    and "filter (\<lambda>p. id_poll p = pid) (polls d) = [row]"
  shows "(map_option kind (fst (submitVote e d pid i)) = Some InvalidInput
            \<longleftrightarrow> i < 0 \<or> int (length (options row)) \<le> i)
       \<and> (i < 0 \<or> int (length (options row)) \<le> i
            \<longrightarrow> submitVote e d pid i = (Some InvalidOption, d))"
  by (simp add: submitVote_found [OF assms] split: option.splits)

theorem C9_witness:
  "submitVote bob db001 ''p1'' 2 = (Some InvalidOption, db001)
   \<and> submitVote bob db001 ''p1'' (- 1) = (Some InvalidOption, db001)
   \<and> map_option kind (fst (submitVote anonymous db001 ''p1'' 1)) \<noteq> Some InvalidInput"
proof -
  have h: "fault bob SelectPolls = None" "fault anonymous SelectPolls = None"
    by (simp_all add: bob_def anonymous_def no_fault_def)
  from C9_option_index_range [OF h(1) filter_poll1, of 2]
    C9_option_index_range [OF h(1) filter_poll1, of "- 1"]
    C9_option_index_range [OF h(2) filter_poll1, of 1]
  show ?thesis by (simp add: poll1_def)
qed

lemma filter_id_distinct:
  "distinct (map id_poll ps) \<Longrightarrow> row \<in> set ps
   \<Longrightarrow> filter (\<lambda>p. id_poll p = id_poll row) ps = [row]"
proof (induction ps)
  case Nil
  then show ?case by simp
next
  case (Cons p ps)
  show ?case
  proof (cases "p = row")
    case True
    with Cons.prems have "id_poll row \<notin> id_poll ` set ps" by simp
    then have "\<forall>q\<in>set ps. id_poll q \<noteq> id_poll row" by (metis imageI)
    then have "filter (\<lambda>p. id_poll p = id_poll row) ps = []" by (simp add: filter_empty_conv)
    with True show ?thesis by simp
  next
    case False
    with Cons.prems have "row \<in> set ps" and "distinct (map id_poll ps)"
      and "id_poll p \<noteq> id_poll row" by auto
    with Cons.IH show ?thesis by simp
  qed
qed

lemma submitVote_missing:
  "pid \<notin> set (map id_poll (polls d)) \<Longrightarrow> submitVote e d pid i = (Some PollNotFound, d)"
proof -
  assume "pid \<notin> set (map id_poll (polls d))"
  then have "filter (\<lambda>p. id_poll p = pid) (polls d) = []"
    by (auto simp: filter_empty_conv)
  then show ?thesis by (simp add: submitVote_def single_def split: option.splits)
qed

text \<open>
  Claim C8. \<^verbatim>\<open>submitVote\<close> fails with NotFound exactly when no row of \<^verbatim>\<open>polls\<close> has the
  given id (ids are the primary key). The active flag is not read: on a soft-deleted
  poll, an index in range from an anonymous requester, or from a user with no vote on
  the poll, is accepted and the vote row is inserted.
\<close>

theorem C8_not_found:
  assumes "fault e SelectPolls = None" and "distinct (map id_poll (polls d))"
  shows "(map_option kind (fst (submitVote e d pid i)) = Some NotFound
            \<longleftrightarrow> pid \<notin> set (map id_poll (polls d)))
       \<and> (\<forall>row\<in>set (polls d). id_poll row = pid \<and> \<not> is_active row
              \<and> 0 \<le> i \<and> i < int (length (options row)) \<and> fault e InsertVotes = None
              \<and> (user e = None \<or> (\<forall>v\<in>set (votes d). \<not> (poll_id v = pid \<and> user_id v = user e)))
            \<longrightarrow> submitVote e d pid i =
                  (None, d\<lparr>votes := votes d @
                     [\<lparr>poll_id = pid, user_id = user e, option_index = i\<rparr>]\<rparr>))"
proof (intro conjI ballI impI)
  show "map_option kind (fst (submitVote e d pid i)) = Some NotFound
            \<longleftrightarrow> pid \<notin> set (map id_poll (polls d))"
  proof (cases "pid \<in> set (map id_poll (polls d))")
    case False
    then show ?thesis by (simp add: submitVote_missing)
  next
    case True
    then obtain row where row: "row \<in> set (polls d)" "id_poll row = pid" by auto
    with assms(2) have "filter (\<lambda>p. id_poll p = pid) (polls d) = [row]"
      using filter_id_distinct by blast
    from submitVote_found [OF assms(1) this] True show ?thesis
      by (simp split: option.splits)
  qed
next
  fix row
  assume row: "row \<in> set (polls d)"
    and h: "id_poll row = pid \<and> \<not> is_active row
              \<and> 0 \<le> i \<and> i < int (length (options row)) \<and> fault e InsertVotes = None
              \<and> (user e = None \<or> (\<forall>v\<in>set (votes d). \<not> (poll_id v = pid \<and> user_id v = user e)))"
  with assms(2) have f: "filter (\<lambda>p. id_poll p = pid) (polls d) = [row]"
    using filter_id_distinct by blast
  have "\<And>uid. user e = Some uid \<Longrightarrow>
       filter (\<lambda>v. poll_id v = pid \<and> user_id v = Some uid) (votes d) = []"
    using h by (auto simp: filter_empty_conv)
  with h show "submitVote e d pid i =
                  (None, d\<lparr>votes := votes d @
                     [\<lparr>poll_id = pid, user_id = user e, option_index = i\<rparr>]\<rparr>)"
    by (simp add: submitVote_found [OF assms(1) f] single_def split: option.splits)
qed

theorem C8_witness:
  "map_option kind (fst (submitVote anonymous db_deleted ''p2'' 0)) = Some NotFound
   \<and> map_option kind (fst (submitVote anonymous db_deleted ''p1'' 0)) \<noteq> Some NotFound
   \<and> \<not> is_active poll1_deleted
   \<and> submitVote anonymous db_deleted ''p1'' 1 =
       (None, db_deleted\<lparr>votes := votes db_deleted @
          [\<lparr>poll_id = ''p1'', user_id = None, option_index = 1\<rparr>]\<rparr>)"
proof -
  have h: "fault anonymous SelectPolls = None" "distinct (map id_poll (polls db_deleted))"
    by (simp_all add: anonymous_def no_fault_def db_deleted_def)
  from C8_not_found [OF h, of "''p2''" 0] C8_not_found [OF h, of "''p1''" 0]
    C8_not_found [OF h, of "''p1''" 1]
  show ?thesis
    by (simp add: db_deleted_def poll1_deleted_def anonymous_def no_fault_def)
qed

lemma distinct_key_filter:
  "distinct (map f xs) \<Longrightarrow> length (filter (\<lambda>x. f x = k) xs) \<le> 1"
proof (induction xs)
  case Nil
  then show ?case by simp
next
  case (Cons x xs)
  show ?case
  proof (cases "f x = k")
    case True
    with Cons.prems have "k \<notin> f ` set xs" by auto
    then have "\<forall>y\<in>set xs. f y \<noteq> k" by (metis imageI)
    then have "filter (\<lambda>x. f x = k) xs = []" by (simp add: filter_empty_conv)
    with True show ?thesis by simp
  next
    case False
    with Cons show ?thesis by simp
  qed
qed

lemma one_vote_per_user_length:
  assumes "one_vote_per_user d"
  shows "length (filter (\<lambda>v. poll_id v = pid \<and> user_id v = Some uid) (votes d)) \<le> 1"
proof -
  have "filter (\<lambda>v. poll_id v = pid \<and> user_id v = Some uid) (votes d)
      = filter (\<lambda>v. (poll_id v, user_id v) = (pid, Some uid))
          (filter (\<lambda>v. user_id v \<noteq> None) (votes d))"
    by (auto intro: filter_cong)
  with distinct_key_filter [OF assms [unfolded one_vote_per_user_def], of "(pid, Some uid)"]
  show ?thesis by simp
qed

lemma submitVote_votes:
  "votes (snd (submitVote e d pid i)) = votes d
   \<or> votes (snd (submitVote e d pid i))
        = votes d @ [\<lparr>poll_id = pid, user_id = user e, option_index = i\<rparr>]
      \<and> (\<forall>uid. user e = Some uid \<longrightarrow>
            (\<forall>v. single (fault e SelectVotes)
                   (filter (\<lambda>v. poll_id v = pid \<and> user_id v = Some uid) (votes d)) \<noteq> Inr v))"
  by (auto simp: submitVote_def insert_vote_def split: sum.splits option.splits if_splits)

lemma submitVote_keeps_one_vote_per_user:
  assumes "fault e SelectVotes = None" and "one_vote_per_user d"
  shows "one_vote_per_user (snd (submitVote e d pid i))"
proof -
  let ?d' = "snd (submitVote e d pid i)"
  from submitVote_votes [of e d pid i] show ?thesis
  proof (elim disjE conjE)
    assume "votes ?d' = votes d"
    with assms(2) show ?thesis by (simp add: one_vote_per_user_def)
  next
    assume new: "votes ?d' = votes d @ [\<lparr>poll_id = pid, user_id = user e, option_index = i\<rparr>]"
      and chk: "\<forall>uid. user e = Some uid \<longrightarrow>
            (\<forall>v. single (fault e SelectVotes)
                   (filter (\<lambda>v. poll_id v = pid \<and> user_id v = Some uid) (votes d)) \<noteq> Inr v)"
    show ?thesis
    proof (cases "user e")
      case None
      with new assms(2) show ?thesis by (simp add: one_vote_per_user_def)
    next
      case (Some uid)
      let ?mine = "filter (\<lambda>v. poll_id v = pid \<and> user_id v = Some uid) (votes d)"
      from chk Some assms(1) have "\<forall>v. ?mine \<noteq> [v]"
        by (auto simp: single_def split: list.splits)
      moreover have "length ?mine \<le> 1" by (rule one_vote_per_user_length [OF assms(2)])
      ultimately have "?mine = []" by (cases ?mine) auto
      then have "\<forall>v\<in>set (votes d). \<not> (poll_id v = pid \<and> user_id v = Some uid)"
        by (simp add: filter_empty_conv)
      then have "(pid, Some uid) \<notin> set (map (\<lambda>v. (poll_id v, user_id v))
          (filter (\<lambda>v. user_id v \<noteq> None) (votes d)))" by auto
      with new Some assms(2) show ?thesis by (simp add: one_vote_per_user_def)
    qed
  qed
qed

text \<open>
  Outside the invariant the check does not fire: with two votes of a user stored for a
  poll, which calls in sequence do not produce while the vote select works,
  \<^verbatim>\<open>.single()\<close> reports an error, \<^verbatim>\<open>existingVote\<close> is null and a third vote is inserted.
\<close>

lemma submitVote_outside_invariant:
  "\<not> one_vote_per_user db_twice
   \<and> submitVote alice db_twice ''p1'' 1 =
       (None, db_twice\<lparr>votes := votes db_twice @
          [\<lparr>poll_id = ''p1'', user_id = Some ''u1'', option_index = 1\<rparr>]\<rparr>)"
  by (simp add: one_vote_per_user_def submitVote_def single_def insert_vote_def db_twice_def
      poll1_def alice_def no_fault_def)

text \<open>
  Claim C4. Votes of signed-in users: in a store with at most one vote for each pair of
  poll and user (the invariant of the data model, which the call keeps), after a
  \<^verbatim>\<open>submitVote\<close> of the user a vote of the pair exists, and a further \<^verbatim>\<open>submitVote\<close> of
  the same user on the same poll fails with DuplicateVote and leaves the store unchanged;
  so does any \<^verbatim>\<open>submitVote\<close> of a user whose vote on the poll is already stored.
  Anonymous votes are not checked: two in a row both succeed and both rows are inserted.
  The poll exists and the indices are in range.
\<close>

theorem C4_duplicate_vote:
  assumes "fault e SelectPolls = None" and "fault e SelectVotes = None"
    and "fault e InsertVotes = None" and "user e = Some uid"
    and "fault a SelectPolls = None" and "fault a InsertVotes = None" and "user a = None"
    and "filter (\<lambda>p. id_poll p = pid) (polls d) = [row]"
    and "0 \<le> i" and "i < int (length (options row))"
    and "0 \<le> j" and "j < int (length (options row))"
    and "one_vote_per_user d"
  shows "(\<exists>v\<in>set (votes (snd (submitVote e d pid i))). poll_id v = pid \<and> user_id v = Some uid)
       \<and> one_vote_per_user (snd (submitVote e d pid i))
       \<and> submitVote e (snd (submitVote e d pid i)) pid j
           = (Some AlreadyVoted, snd (submitVote e d pid i))
       \<and> ((\<exists>v\<in>set (votes d). poll_id v = pid \<and> user_id v = Some uid)
            \<longrightarrow> submitVote e d pid j = (Some AlreadyVoted, d))
       \<and> submitVote a d pid i =
           (None, d\<lparr>votes := votes d @ [\<lparr>poll_id = pid, user_id = None, option_index = i\<rparr>]\<rparr>)
       \<and> submitVote a (snd (submitVote a d pid i)) pid j =
           (None, d\<lparr>votes := votes d @ [\<lparr>poll_id = pid, user_id = None, option_index = i\<rparr>,
                                        \<lparr>poll_id = pid, user_id = None, option_index = j\<rparr>]\<rparr>)"
proof -
  let ?mine = "\<lambda>v. poll_id v = pid \<and> user_id v = Some uid"
  let ?new = "\<lparr>poll_id = pid, user_id = Some uid, option_index = i\<rparr>"
  let ?d1 = "snd (submitVote e d pid i)"
  have "length (filter ?mine (votes d)) \<le> 1"
    by (rule one_vote_per_user_length [OF assms(13)])
  then have cases: "filter ?mine (votes d) = [] \<or> (\<exists>v. filter ?mine (votes d) = [v])"
    by (cases "filter ?mine (votes d)") auto
  have c0: "one_vote_per_user ?d1"
    by (rule submitVote_keeps_one_vote_per_user [OF assms(2,13)])
  have first: "polls ?d1 = polls d \<and> (\<exists>v. filter ?mine (votes ?d1) = [v])"
  proof (cases "filter ?mine (votes d) = []")
    case True
    from submitVote_first [OF assms(1-4) assms(8-10) True] True show ?thesis by simp
  next
    case False
    with cases obtain v where v: "filter ?mine (votes d) = [v]" by blast
    from submitVote_again [OF assms(1,2,4,8,9,10) v] v show ?thesis by simp
  qed
  then obtain v where v: "filter ?mine (votes ?d1) = [v]" by blast
  then have "v \<in> set (filter ?mine (votes ?d1))" by simp
  then have c1: "\<exists>v\<in>set (votes ?d1). poll_id v = pid \<and> user_id v = Some uid" by auto
  from first assms(8) have p1: "filter (\<lambda>p. id_poll p = pid) (polls ?d1) = [row]" by simp
  have c2: "submitVote e ?d1 pid j = (Some AlreadyVoted, ?d1)"
    by (rule submitVote_again [OF assms(1,2,4) p1 assms(11,12) v])
  have c3: "(\<exists>v\<in>set (votes d). poll_id v = pid \<and> user_id v = Some uid)
            \<longrightarrow> submitVote e d pid j = (Some AlreadyVoted, d)"
  proof
    assume "\<exists>v\<in>set (votes d). poll_id v = pid \<and> user_id v = Some uid"
    then have "filter ?mine (votes d) \<noteq> []" by (auto simp: filter_empty_conv)
    with cases obtain w where "filter ?mine (votes d) = [w]" by blast
    then show "submitVote e d pid j = (Some AlreadyVoted, d)"
      by (rule submitVote_again [OF assms(1,2,4,8) assms(11,12)])
  qed
  have c4: "submitVote a d pid i =
           (None, d\<lparr>votes := votes d @ [\<lparr>poll_id = pid, user_id = None, option_index = i\<rparr>]\<rparr>)"
    by (rule submitVote_anonymous [OF assms(5,6,7,8,9,10)])
  have "filter (\<lambda>p. id_poll p = pid)
          (polls (d\<lparr>votes := votes d @ [\<lparr>poll_id = pid, user_id = None, option_index = i\<rparr>]\<rparr>)) = [row]"
    using assms(8) by simp
  from submitVote_anonymous [OF assms(5,6,7) this assms(11,12)] c4
  have c5: "submitVote a (snd (submitVote a d pid i)) pid j =
           (None, d\<lparr>votes := votes d @ [\<lparr>poll_id = pid, user_id = None, option_index = i\<rparr>,
                                        \<lparr>poll_id = pid, user_id = None, option_index = j\<rparr>]\<rparr>)"
    by simp
  from c0 c1 c2 c3 c4 c5 show ?thesis by blast
qed

theorem C4_witness:
  "fst (submitVote carol db001 ''p1'' 0) = None
   \<and> submitVote carol (snd (submitVote carol db001 ''p1'' 0)) ''p1'' 1
       = (Some AlreadyVoted, snd (submitVote carol db001 ''p1'' 0))
   \<and> fst (submitVote anonymous db001 ''p1'' 0) = None
   \<and> fst (submitVote anonymous (snd (submitVote anonymous db001 ''p1'' 0)) ''p1'' 1) = None"
proof -
  have e: "fault carol SelectPolls = None" "fault carol SelectVotes = None"
    "fault carol InsertVotes = None" "user carol = Some ''u3''"
    by (simp_all add: carol_def no_fault_def)
  have a: "fault anonymous SelectPolls = None" "fault anonymous InsertVotes = None"
    "user anonymous = None"
    by (simp_all add: anonymous_def no_fault_def)
  have i: "(0::int) \<le> 0" "0 < int (length (options poll1))"
    and j: "(0::int) \<le> 1" "1 < int (length (options poll1))"
    by (simp_all add: poll1_def)
  have none: "filter (\<lambda>v. poll_id v = ''p1'' \<and> user_id v = Some ''u3'') (votes db001) = []"
    by (simp add: db001_def)
  have one: "one_vote_per_user db001"
    by (simp add: one_vote_per_user_def db001_def)
  have first: "fst (submitVote carol db001 ''p1'' 0) = None"
    by (simp add: submitVote_first [OF e filter_poll1 i none])
  note w = C4_duplicate_vote [OF e a filter_poll1 i j one]
  from w have c2: "submitVote carol (snd (submitVote carol db001 ''p1'' 0)) ''p1'' 1
       = (Some AlreadyVoted, snd (submitVote carol db001 ''p1'' 0))" by blast
  from w have "submitVote anonymous db001 ''p1'' 0 =
      (None, db001\<lparr>votes := votes db001 @
         [\<lparr>poll_id = ''p1'', user_id = None, option_index = 0\<rparr>]\<rparr>)" by blast
  then have c4: "fst (submitVote anonymous db001 ''p1'' 0) = None" by simp
  from w have "submitVote anonymous (snd (submitVote anonymous db001 ''p1'' 0)) ''p1'' 1 =
      (None, db001\<lparr>votes := votes db001 @
         [\<lparr>poll_id = ''p1'', user_id = None, option_index = 0\<rparr>,
          \<lparr>poll_id = ''p1'', user_id = None, option_index = 1\<rparr>]\<rparr>)" by blast
  then have c5: "fst (submitVote anonymous (snd (submitVote anonymous db001 ''p1'' 0)) ''p1'' 1)
      = None" by simp
  from first c2 c4 c5 show ?thesis by blast
qed

section \<open>Deleting and updating\<close>

lemma map_if_single:
  "filter P xs = [r] \<Longrightarrow>
   \<exists>k<length xs. xs ! k = r \<and> map (\<lambda>p. if P p then f p else p) xs = xs[k := f r]"
proof (induction xs)
  case Nil
  then show ?case by simp
next
  case (Cons x xs)
  show ?case
  proof (cases "P x")
    case True
    with Cons.prems have x: "x = r" and none: "filter P xs = []" by simp_all
    from none have "\<forall>p\<in>set xs. \<not> P p" by (simp add: filter_empty_conv)
    then have "map (\<lambda>p. if P p then f p else p) xs = xs" by (simp add: map_idI)
    with True x show ?thesis by (intro exI [of _ 0]) simp
  next
    case False
    with Cons.prems have "filter P xs = [r]" by simp
    from Cons.IH [OF this] obtain k where k: "k < length xs" "xs ! k = r"
      "map (\<lambda>p. if P p then f p else p) xs = xs[k := f r]" by blast
    with False have "Suc k < length (x # xs) \<and> (x # xs) ! Suc k = r
        \<and> map (\<lambda>p. if P p then f p else p) (x # xs) = (x # xs)[Suc k := f r]" by simp
    then show ?thesis by blast
  qed
qed

lemma deactivate_inactive: "\<not> is_active p \<Longrightarrow> p\<lparr>is_active := False\<rparr> = p"
  by (cases p) simp

lemma delete_update_eq:
  assumes "filter (\<lambda>p. id_poll p = pid \<and> is_active p) ps = [row]" and "created_by row = uid"
  shows "map (\<lambda>p. if id_poll p = pid \<and> created_by p = uid then p\<lparr>is_active := False\<rparr> else p) ps
       = map (\<lambda>p. if id_poll p = pid \<and> is_active p then p\<lparr>is_active := False\<rparr> else p) ps"
proof (rule map_cong [OF refl])
  fix p
  assume "p \<in> set ps"
  show "(if id_poll p = pid \<and> created_by p = uid then p\<lparr>is_active := False\<rparr> else p)
      = (if id_poll p = pid \<and> is_active p then p\<lparr>is_active := False\<rparr> else p)"
  proof (cases "id_poll p = pid \<and> is_active p")
    case True
    with \<open>p \<in> set ps\<close> have "p \<in> set (filter (\<lambda>p. id_poll p = pid \<and> is_active p) ps)" by simp
    with assms have "p = row" by simp
    with assms(2) True show ?thesis by simp
  next
    case False
    then show ?thesis by (auto simp: deactivate_inactive)
  qed
qed

lemma deletePoll_owner:
  assumes "user e = Some uid" and "userError e = None" and "fault e SelectPolls = None"
    and "fault e UpdatePolls = None"
    and "filter (\<lambda>p. id_poll p = pid \<and> is_active p) (polls d) = [row]"
    and "created_by row = uid"
  shows "deletePoll e d pid =
     (None, d\<lparr>polls := map (\<lambda>p. if id_poll p = pid \<and> is_active p
                                  then p\<lparr>is_active := False\<rparr> else p) (polls d)\<rparr>)"
  using assms(1-4,6) delete_update_eq [OF assms(5,6)]
  by (simp add: deletePoll_def single_def update_polls_def assms(5))

lemma no_active_after:
  "filter (\<lambda>p. id_poll p = pid \<and> is_active p)
     (map (\<lambda>p. if id_poll p = pid \<and> is_active p then p\<lparr>is_active := False\<rparr> else p) ps) = []"
  by (induction ps) auto

lemma set_order_desc: "set (order_desc rows) = set rows"
  by (simp add: order_desc_def)

lemma getUserPolls_rows:
  "p \<in> set (fst (getUserPolls r d)) \<Longrightarrow> p \<in> set (polls d) \<and> is_active p"
  by (auto simp: getUserPolls_def select_rows_def set_order_desc split: option.splits)

text \<open>
  Claim C7. \<^verbatim>\<open>deletePoll\<close> by the owner of an active poll succeeds; the only change to the
  store is that the poll's row has \<^verbatim>\<open>is_active = false\<close>. The votes are untouched, so
  \<^verbatim>\<open>getVoteCounts\<close> answers as before (its total is the number of vote rows of the
  poll), while \<^verbatim>\<open>getPollById\<close> no longer returns the poll and \<^verbatim>\<open>getUserPolls\<close> no longer
  lists it.
\<close>

theorem C7_delete_is_soft:
  assumes "user e = Some uid" and "userError e = None" and "fault e SelectPolls = None"
    and "fault e UpdatePolls = None"
    and "filter (\<lambda>p. id_poll p = pid \<and> is_active p) (polls d) = [row]"
    and "created_by row = uid"
  shows "\<exists>d' k. deletePoll e d pid = (None, d')
       \<and> k < length (polls d) \<and> polls d ! k = row
       \<and> polls d' = (polls d)[k := row\<lparr>is_active := False\<rparr>]
       \<and> votes d' = votes d
       \<and> (\<forall>r x. getVoteCounts r d' x = getVoteCounts r d x)
       \<and> (\<forall>r. fault r SelectVotes = None \<longrightarrow>
              fst (snd (getVoteCounts r d' pid)) = length (filter (\<lambda>v. poll_id v = pid) (votes d)))
       \<and> (\<forall>r. fst (getPollById r d' pid) = None
              \<and> (fault r SelectPolls = None \<longrightarrow>
                   getPollById r d' pid = (None, Some (StoreMessage NoSingleRow))))
       \<and> (\<forall>r. pid \<notin> set (map id_poll (fst (getUserPolls r d'))))"
proof -
  let ?off = "\<lambda>p. if id_poll p = pid \<and> is_active p then p\<lparr>is_active := False\<rparr> else p"
  define d' where "d' = d\<lparr>polls := map ?off (polls d)\<rparr>"
  have del: "deletePoll e d pid = (None, d')"
    unfolding d'_def by (rule deletePoll_owner [OF assms])
  from map_if_single [OF assms(5), of "\<lambda>p. p\<lparr>is_active := False\<rparr>"]
  obtain k where k: "k < length (polls d)" "polls d ! k = row"
    "map ?off (polls d) = (polls d)[k := row\<lparr>is_active := False\<rparr>]" by blast
  have ps: "polls d' = (polls d)[k := row\<lparr>is_active := False\<rparr>]"
    by (simp add: d'_def k(3))
  have vs: "votes d' = votes d" by (simp add: d'_def)
  have gone: "filter (\<lambda>p. id_poll p = pid \<and> is_active p) (polls d') = []"
    by (simp add: d'_def no_active_after)
  have counts: "\<forall>r x. getVoteCounts r d' x = getVoteCounts r d x"
    by (simp add: getVoteCounts_def vs)
  have total: "\<forall>r. fault r SelectVotes = None \<longrightarrow>
      fst (snd (getVoteCounts r d' pid)) = length (filter (\<lambda>v. poll_id v = pid) (votes d))"
    by (simp add: getVoteCounts_no_fault vs)
  have get: "\<forall>r. fst (getPollById r d' pid) = None
              \<and> (fault r SelectPolls = None \<longrightarrow>
                   getPollById r d' pid = (None, Some (StoreMessage NoSingleRow)))"
    using gone by (simp add: getPollById_def single_def split: option.splits)
  have list: "\<forall>r. pid \<notin> set (map id_poll (fst (getUserPolls r d')))"
  proof (intro allI notI)
    fix r
    assume "pid \<in> set (map id_poll (fst (getUserPolls r d')))"
    then obtain p where "p \<in> set (fst (getUserPolls r d'))" and "id_poll p = pid" by auto
    with getUserPolls_rows [of p r d']
    have "p \<in> set (filter (\<lambda>p. id_poll p = pid \<and> is_active p) (polls d'))" by simp
    with gone show False by simp
  qed
  from del k(1,2) ps vs counts total get list show ?thesis by blast
qed

theorem C7_witness:
  "deletePoll alice db001 ''p1'' = (None, db001\<lparr>polls := [poll1\<lparr>is_active := False\<rparr>]\<rparr>)
   \<and> fst (snd (getVoteCounts anonymous (snd (deletePoll alice db001 ''p1'')) ''p1'')) = 3
   \<and> fst (getPollById anonymous (snd (deletePoll alice db001 ''p1'')) ''p1'') = None
   \<and> fst (getUserPolls alice (snd (deletePoll alice db001 ''p1''))) = []"
proof -
  have h: "user alice = Some ''u1''" "userError alice = None"
    "fault alice SelectPolls = None" "fault alice UpdatePolls = None"
    by (simp_all add: alice_def no_fault_def)
  have o: "created_by poll1 = ''u1''" by (simp add: poll1_def)
  from C7_delete_is_soft [OF h filter_poll1_active o]
  obtain d' k where d': "deletePoll alice db001 ''p1'' = (None, d')"
    and k: "k < length (polls db001)"
    and ps: "polls d' = (polls db001)[k := poll1\<lparr>is_active := False\<rparr>]"
    and vs: "votes d' = votes db001"
    and total: "\<forall>r. fault r SelectVotes = None \<longrightarrow>
        fst (snd (getVoteCounts r d' ''p1''))
          = length (filter (\<lambda>v. poll_id v = ''p1'') (votes db001))"
    and get: "\<forall>r. fst (getPollById r d' ''p1'') = None"
    and list: "\<forall>r. ''p1'' \<notin> set (map id_poll (fst (getUserPolls r d')))"
    by blast
  from k have "k = 0" by (simp add: db001_def)
  with ps vs have eq: "d' = db001\<lparr>polls := [poll1\<lparr>is_active := False\<rparr>]\<rparr>"
    by (simp add: db001_def)
  have "fault anonymous SelectVotes = None" by (simp add: anonymous_def no_fault_def)
  with total have t: "fst (snd (getVoteCounts anonymous d' ''p1'')) = 3"
    by (simp add: db001_def)
  have l: "fst (getUserPolls alice d') = []"
    by (simp add: eq getUserPolls_def alice_def select_rows_def no_fault_def order_desc_def
        db001_def poll1_def)
  from d' eq t get l show ?thesis by simp
qed

text \<open>
  Claim C10. In the documented copy of \<^verbatim>\<open>updatePoll\<close>, once validation and the ownership
  check have passed, the result is \<^verbatim>\<open>{ error: null }\<close> whatever the store update
  answers: when the update fails, nothing is written and success is reported. The
  second copy returns the message of the failed update.
\<close>

theorem C10_update_error_dropped:
  assumes "validate fd = Inr (q, os)" and "user e = Some uid" and "userError e = None"
    and "fault e SelectPolls = None"
    and "filter (\<lambda>p. id_poll p = pid \<and> is_active p) (polls d) = [row]"
    and "created_by row = uid"
  shows "fst (updatePoll e d pid fd) = None
       \<and> (\<forall>m. fault e UpdatePolls = Some m \<longrightarrow>
              updatePoll e d pid fd = (None, d)
            \<and> updatePoll_copy2 e d pid fd = (Some (StoreMessage (StoreFault m)), d))"
  using assms
  by (simp add: updatePoll_def updatePoll_copy2_def single_def
      update_polls_def split: option.splits)

theorem C10_witness:
  "fault alice_offline UpdatePolls = Some ''connection lost''
   \<and> updatePoll alice_offline db001 ''p1'' form_AB = (None, db001)
   \<and> updatePoll_copy2 alice_offline db001 ''p1'' form_AB
       = (Some (StoreMessage (StoreFault ''connection lost'')), db001)"
proof -
  have h: "user alice_offline = Some ''u1''" "userError alice_offline = None"
    "fault alice_offline SelectPolls = None"
    by (simp_all add: alice_offline_def update_fails_def)
  have o: "created_by poll1 = ''u1''" by (simp add: poll1_def)
  have f: "fault alice_offline UpdatePolls = Some ''connection lost''"
    by (simp add: alice_offline_def update_fails_def)
  from C10_update_error_dropped [OF validate_form_AB h filter_poll1_active o] f
  show ?thesis by simp
qed

section \<open>Creating a poll\<close>

lemma validate_ok_iff:
  "(\<exists>q os. validate fd = Inr (q, os))
     \<longleftrightarrow> \<not> spec_invalid_input (get_question fd) (filter (\<lambda>s. s \<noteq> []) (getAll_options fd))"
  by (cases "get_question fd") (auto simp: validate_Inr spec_invalid_input_def trim_Nil)

lemma validate_cases:
  "(\<exists>err. validate fd = Inl err \<and> kind err = InvalidInput
          \<and> spec_invalid_input (get_question fd) (filter (\<lambda>s. s \<noteq> []) (getAll_options fd)))
   \<or> (\<exists>q os. validate fd = Inr (q, os)
          \<and> \<not> spec_invalid_input (get_question fd) (filter (\<lambda>s. s \<noteq> []) (getAll_options fd)))"
proof (cases "validate fd")
  case (Inl err)
  then have "\<not> (\<exists>q os. validate fd = Inr (q, os))" by simp
  with validate_ok_iff [of fd]
  have "spec_invalid_input (get_question fd) (filter (\<lambda>s. s \<noteq> []) (getAll_options fd))"
    by blast
  with Inl show ?thesis by (simp add: validate_kind)
next
  case (Inr ok)
  then have "\<exists>q os. validate fd = Inr (q, os)" by (cases ok) simp
  then show ?thesis using validate_ok_iff [of fd] by blast
qed

lemma createPoll_kind:
  "validate fd = Inr (q, os) \<Longrightarrow> map_option kind (fst (createPoll e d fd)) \<noteq> Some InvalidInput"
  by (simp add: createPoll_def insert_poll_def split: option.splits)

lemma updatePoll_kind:
  "validate fd = Inr (q, os) \<Longrightarrow> map_option kind (fst (updatePoll e d pid fd)) \<noteq> Some InvalidInput"
  by (simp add: updatePoll_def update_polls_def
      split: option.splits sum.splits)

lemma updatePoll_copy2_kind:
  "validate fd = Inr (q, os)
   \<Longrightarrow> map_option kind (fst (updatePoll_copy2 e d pid fd)) \<noteq> Some InvalidInput"
  by (simp add: updatePoll_copy2_def update_polls_def
      split: option.splits sum.splits)

lemma rejected:
  "validate fd = Inl err \<Longrightarrow>
     createPoll e d fd = (Some err, d) \<and> updatePoll e d pid fd = (Some err, d)
   \<and> updatePoll_copy2 e d pid fd = (Some err, d)"
  by (simp add: createPoll_def updatePoll_def updatePoll_copy2_def)

lemma validate_boundaries:
  "validate (form_of ''T'' [''A'']) = Inl TooFewOptions"
  "validate (form_of ''T'' [''A'', ''B'']) = Inr (''T'', [''A'', ''B''])"
  "validate (form_of ''T'' ten_options) = Inr (''T'', ten_options)"
  "validate (form_of ''T'' (ten_options @ [''K''])) = Inl TooManyOptions"
  "validate (form_of (replicate 500 CHR ''x'') [''A'', ''B''])
     = Inr (replicate 500 CHR ''x'', [''A'', ''B''])"
  "validate (form_of (replicate 501 CHR ''x'') [''A'', ''B'']) = Inl QuestionTooLong"
  "validate (form_of ''T'' [''A'', '' A '']) = Inl DuplicateOptions"
  "validate (form_of ''T'' [''A'', ''  '']) = Inl (OptionEmpty 2)"
  "validate (form_of ''T'' [''A'', replicate 201 CHR ''x'']) = Inl (OptionTooLong 2)"
  "validate (form_of ''T'' [''A'', '''', ''B'']) = Inr (''T'', [''A'', ''B''])"
  by (simp_all add: form_of_def ten_options_def eval_defs)

text \<open>
  Claim C6, as amended. \<^verbatim>\<open>createPoll\<close> and \<^verbatim>\<open>updatePoll\<close> (both copies) fail with an
  InvalidInput error exactly when the title and the options that are left after the empty
  strings have been dropped are invalid in the words of the specification: the title is
  absent, empty, whitespace-only or longer than 500 characters, fewer than 2 or more than
  10 options are left, one of them is whitespace-only or longer than 200 characters after
  trimming, or two of them are equal after trimming. At the boundaries, 1 and 11
  options, a title of 501 characters and the options \<open>"A"\<close>, \<open>" A "\<close> are rejected;
  2 and 10 options and a title of 500 characters are not.
\<close>

theorem C6_invalid_input:
  "(map_option kind (fst (createPoll e d fd)) = Some InvalidInput
      \<longleftrightarrow> spec_invalid_input (get_question fd) (filter (\<lambda>s. s \<noteq> []) (getAll_options fd)))
   \<and> (map_option kind (fst (updatePoll e d pid fd)) = Some InvalidInput
      \<longleftrightarrow> spec_invalid_input (get_question fd) (filter (\<lambda>s. s \<noteq> []) (getAll_options fd)))
   \<and> (map_option kind (fst (updatePoll_copy2 e d pid fd)) = Some InvalidInput
      \<longleftrightarrow> spec_invalid_input (get_question fd) (filter (\<lambda>s. s \<noteq> []) (getAll_options fd)))"
  using validate_cases [of fd]
proof (elim disjE exE conjE)
  fix err
  assume "validate fd = Inl err" and "kind err = InvalidInput"
    and "spec_invalid_input (get_question fd) (filter (\<lambda>s. s \<noteq> []) (getAll_options fd))"
  then show ?thesis by (simp add: rejected)
next
  fix q os
  assume "validate fd = Inr (q, os)"
    and "\<not> spec_invalid_input (get_question fd) (filter (\<lambda>s. s \<noteq> []) (getAll_options fd))"
  then show ?thesis
    using createPoll_kind [of fd q os e d] updatePoll_kind [of fd q os e d pid]
      updatePoll_copy2_kind [of fd q os e d pid] by blast
qed

theorem C6_witness:
  "map_option kind (fst (createPoll alice db001 (form_of ''T'' [''A'']))) = Some InvalidInput
   \<and> map_option kind (fst (createPoll alice db001 (form_of ''T'' [''A'', ''B''])))
        \<noteq> Some InvalidInput
   \<and> map_option kind (fst (createPoll alice db001 (form_of ''T'' ten_options)))
        \<noteq> Some InvalidInput
   \<and> map_option kind (fst (createPoll alice db001 (form_of ''T'' (ten_options @ [''K'']))))
        = Some InvalidInput
   \<and> map_option kind (fst (createPoll alice db001 (form_of (replicate 500 CHR ''x'') [''A'', ''B''])))
        \<noteq> Some InvalidInput
   \<and> map_option kind (fst (createPoll alice db001 (form_of (replicate 501 CHR ''x'') [''A'', ''B''])))
        = Some InvalidInput
   \<and> map_option kind (fst (updatePoll alice db001 ''p1'' (form_of ''T'' [''A'', '' A ''])))
        = Some InvalidInput"
proof -
  have c1: "spec_invalid_input (Some ''T'') [''A'']"
    and c2: "\<not> spec_invalid_input (Some ''T'') [''A'', ''B'']"
    and c3: "\<not> spec_invalid_input (Some ''T'') ten_options"
    and c4: "spec_invalid_input (Some ''T'') (ten_options @ [''K''])"
    and c5: "\<not> spec_invalid_input (Some (replicate 500 CHR ''x'')) [''A'', ''B'']"
    and c6: "spec_invalid_input (Some (replicate 501 CHR ''x'')) [''A'', ''B'']"
    and c7: "spec_invalid_input (Some ''T'') [''A'', '' A '']"
    by (simp_all add: spec_invalid_input_def ten_options_def trim_def is_ws_def)
  from C6_invalid_input [of alice db001 "form_of ''T'' [''A'']"] c1
  have w1: "map_option kind (fst (createPoll alice db001 (form_of ''T'' [''A''])))
      = Some InvalidInput" by (simp add: form_of_def)
  from C6_invalid_input [of alice db001 "form_of ''T'' [''A'', ''B'']"] c2
  have w2: "map_option kind (fst (createPoll alice db001 (form_of ''T'' [''A'', ''B''])))
      \<noteq> Some InvalidInput" by (simp add: form_of_def)
  from C6_invalid_input [of alice db001 "form_of ''T'' ten_options"] c3
  have w3: "map_option kind (fst (createPoll alice db001 (form_of ''T'' ten_options)))
      \<noteq> Some InvalidInput" by (simp add: form_of_def ten_options_def)
  from C6_invalid_input [of alice db001 "form_of ''T'' (ten_options @ [''K''])"] c4
  have w4: "map_option kind (fst (createPoll alice db001 (form_of ''T'' (ten_options @ [''K'']))))
      = Some InvalidInput" by (simp add: form_of_def ten_options_def)
  from C6_invalid_input [of alice db001 "form_of (replicate 500 CHR ''x'') [''A'', ''B'']"] c5
  have w5: "map_option kind
      (fst (createPoll alice db001 (form_of (replicate 500 CHR ''x'') [''A'', ''B''])))
      \<noteq> Some InvalidInput" by (simp add: form_of_def)
  from C6_invalid_input [of alice db001 "form_of (replicate 501 CHR ''x'') [''A'', ''B'']"] c6
  have w6: "map_option kind
      (fst (createPoll alice db001 (form_of (replicate 501 CHR ''x'') [''A'', ''B''])))
      = Some InvalidInput" by (simp add: form_of_def)
  from C6_invalid_input [of alice db001 "form_of ''T'' [''A'', '' A '']" "''p1''"] c7
  have w7: "map_option kind (fst (updatePoll alice db001 ''p1'' (form_of ''T'' [''A'', '' A ''])))
      = Some InvalidInput" by (simp add: form_of_def)
  from w1 w2 w3 w4 w5 w6 w7 show ?thesis by blast
qed

text \<open>
  The claim as stated fails: of the options \<open>"A"\<close>, \<open>""\<close>, \<open>"B"\<close> one is empty after
  trimming, and \<^verbatim>\<open>createPoll\<close> accepts them.
\<close>

theorem C6_counterexample:
  "trim '''' = [] \<and> '''' \<in> set [''A'', '''', ''B'']
   \<and> spec_invalid_input (Some ''T'') [''A'', '''', ''B'']
   \<and> fst (createPoll alice db001 (form_of ''T'' [''A'', '''', ''B''])) = None"
  by (simp add: spec_invalid_input_def createPoll_def validate_boundaries alice_def db001_def
      poll1_def insert_poll_def no_fault_def trim_def)

text \<open>
  Claim C5. For a signed-in user and a title and options that are valid in the words of
  the specification, \<^verbatim>\<open>createPoll\<close> succeeds and appends one row to \<^verbatim>\<open>polls\<close>;
  \<^verbatim>\<open>getPollById\<close> of the id the store gave it returns that row: its options are the
  trimmed options of the form in their order (they are distinct, so removing duplicates in
  first-seen order, as \<^verbatim>\<open>new Set\<close> does, changes nothing), it belongs to the user and
  it is active. The store accepts the insert: it reports no failure and the generated
  id is new.
\<close>

theorem C5_create_then_get:
  assumes "\<not> spec_invalid_input (Some ttl) opts"
    and "user e = Some uid" and "userError e = None" and "fault e InsertPolls = None"
    and "gen_random_uuid e \<notin> set (map id_poll (polls d))"
  shows "\<exists>d' p. createPoll e d (form_of ttl opts) = (None, d')
       \<and> polls d' = polls d @ [p] \<and> votes d' = votes d
       \<and> (\<forall>r. fault r SelectPolls = None \<longrightarrow>
              getPollById r d' (gen_random_uuid e) = (Some p, None))
       \<and> options p = map trim opts \<and> distinct (options p)
       \<and> options p = new_Set (map trim opts)
       \<and> options p = rev (remdups (rev (map trim opts)))
       \<and> created_by p = uid \<and> is_active p"
proof -
  let ?p = "\<lparr>id_poll = gen_random_uuid e, title = trim ttl, options = map trim opts,
             created_by = uid, is_active = True, created_at = now e\<rparr>"
  let ?d' = "d\<lparr>polls := polls d @ [?p]\<rparr>"
  from assms(1) have nonempty: "\<forall>x\<in>set opts. x \<noteq> []"
    by (auto simp: spec_invalid_input_def trim_empty)
  then have keep: "filter (\<lambda>s. s \<noteq> []) opts = opts" by simp
  from assms(1) have dist: "distinct (map trim opts)" by (simp add: spec_invalid_input_def)
  from assms(1) have v: "validate (form_of ttl opts) = Inr (ttl, map trim opts)"
    by (simp add: validate_Inr form_of_def keep) (auto simp: spec_invalid_input_def trim_Nil)
  have create: "createPoll e d (form_of ttl opts) = (None, ?d')"
    using assms(2-5) by (simp add: createPoll_def v insert_poll_def)
  from assms(5) have "\<forall>p\<in>set (polls d). id_poll p \<noteq> gen_random_uuid e" by force
  then have "filter (\<lambda>p. id_poll p = gen_random_uuid e \<and> is_active p) (polls d) = []"
    by (simp add: filter_empty_conv)
  then have get: "\<forall>r. fault r SelectPolls = None \<longrightarrow>
              getPollById r ?d' (gen_random_uuid e) = (Some ?p, None)"
    by (simp add: getPollById_def single_def)
  from create get dist show ?thesis
    by (intro exI [of _ ?d'] exI [of _ ?p]) (simp add: new_Set_distinct distinct_remdups_id)
qed

theorem C5_witness:
  "\<not> spec_invalid_input (Some '' Pick one '') ['' A'', ''B '']
   \<and> (\<exists>d' p. createPoll alice db001 (form_of '' Pick one '' ['' A'', ''B '']) = (None, d')
         \<and> getPollById anonymous d' ''p9'' = (Some p, None)
         \<and> options p = [''A'', ''B''] \<and> created_by p = ''u1'' \<and> is_active p)"
proof -
  have v: "\<not> spec_invalid_input (Some '' Pick one '') ['' A'', ''B '']"
    by (simp add: spec_invalid_input_def trim_def is_ws_def)
  have h: "user alice = Some ''u1''" "userError alice = None" "fault alice InsertPolls = None"
    "gen_random_uuid alice \<notin> set (map id_poll (polls db001))"
    by (simp_all add: alice_def no_fault_def db001_def poll1_def)
  have s: "fault anonymous SelectPolls = None" by (simp add: anonymous_def no_fault_def)
  have g: "gen_random_uuid alice = ''p9''" by (simp add: alice_def)
  have t: "map trim ['' A'', ''B ''] = [''A'', ''B'']" by (simp add: trim_def is_ws_def)
  from C5_create_then_get [OF v h]
  obtain d' p where "createPoll alice db001 (form_of '' Pick one '' ['' A'', ''B '']) = (None, d')"
    and "\<forall>r. fault r SelectPolls = None \<longrightarrow>
              getPollById r d' (gen_random_uuid alice) = (Some p, None)"
    and "options p = map trim ['' A'', ''B '']" and "created_by p = ''u1''" and "is_active p"
    by blast
  with s g t have "createPoll alice db001 (form_of '' Pick one '' ['' A'', ''B '']) = (None, d')
         \<and> getPollById anonymous d' ''p9'' = (Some p, None)
         \<and> options p = [''A'', ''B''] \<and> created_by p = ''u1'' \<and> is_active p" by simp
  with v show ?thesis by blast
qed

end
